theory Spec2Isabelle
  imports Main
begin

section \<open>Content collections\<close>

text \<open>
  The data modules \<^verbatim>\<open>src/data/projects.ts\<close>, \<^verbatim>\<open>src/data/studies.ts\<close> and the work-history
  module export arrays of object literals. An object literal with a fixed set of string
  fields is a record, an array is a list, and a JavaScript string is a \<^typ>\<open>string\<close>
  holding the bytes of the source file (UTF-8), so that the one character outside ASCII
  that the data uses, U+2022, is the three bytes of \<open>bullet\<close>.
\<close>

definition bullet :: string where
  "bullet = [CHR 0xE2, CHR 0x80, CHR 0xA2]"

text \<open>
  The five \<^verbatim>\<open>?raw\<close> imports of \<^verbatim>\<open>projects.ts\<close>: the bundler hands each logo file over as
  a string. Their contents are not part of the sources, so they are the module's inputs.
\<close>

record project_imports =
  OddleIcon :: string
  TagManagerIcon :: string
  MenuWiseIcon :: string
  YourRentalsIcon :: string
  ZaloIcon :: string

record Project =
  title :: string
  techStack :: string
  description :: string
  ctaText :: string
  ctaLink :: string
  icon :: string

definition projects :: "project_imports \<Rightarrow> Project list" where
  "projects imp =
  [
    \<lparr>Project.title = ''MenuWise - Recipe Management Platform'',
      techStack = ''NestJS '' @ bullet @ '' Next.js '' @ bullet @ '' React '' @ bullet @ '' PostgreSQL '' @ bullet @ '' Docker '' @ bullet @ '' Python ML'',
      description = ''Complete platform rebuild with recipe weight calculations, nested cost structures, and intelligent ingredient matching. Rescued from 4-year development failure to working system.'',
      ctaText = ''View Demo'',
      ctaLink = ''https://staging.menuwise.com'',
      icon = MenuWiseIcon imp\<rparr>,
    \<lparr>Project.title = ''Your.Rentals - Property Management Platform'',
      techStack = ''NestJS '' @ bullet @ '' React '' @ bullet @ '' AngularJS '' @ bullet @ '' PostgreSQL '' @ bullet @ '' AWS '' @ bullet @ '' Kubernetes'',
      description = ''Comprehensive vacation rental management platform with Stripe/PayPal payments, Booking.com/AirBNB integrations, and Spanish guest registration systems.'',
      ctaText = ''Try Platform'',
      ctaLink = ''https://app.your.rentals/sign-up/email'',
      icon = YourRentalsIcon imp\<rparr>,
    \<lparr>Project.title = ''Oddle Reservation System'',
      techStack = ''NodeJS '' @ bullet @ '' NextJS '' @ bullet @ '' TypeScript '' @ bullet @ '' AWS '' @ bullet @ '' PHP Laravel'',
      description = ''High-performance reservation system serving 1000+ merchants, handling 15,000 requests/minute during peak events with Google Maps Booking API integration.'',
      ctaText = ''Learn More'',
      ctaLink = ''https://www.oddle.me/sg/products/restaurant-reservation-system'',
      icon = OddleIcon imp\<rparr>,
    \<lparr>Project.title = ''GoClass.vn - Online Tutoring Platform'',
      techStack = ''NodeJS '' @ bullet @ '' VueJS '' @ bullet @ '' WebRTC '' @ bullet @ '' WebSocket '' @ bullet @ '' MongoDB '' @ bullet @ '' AWS'',
      description = ''MVP built from scratch in 3 months with real-time chat, video conferencing, learning analytics, and cross-platform mobile apps (iOS/Android).'',
      ctaText = ''View Project'',
      ctaLink = ''#'',
      icon = TagManagerIcon imp\<rparr>,
    \<lparr>Project.title = ''Zalo Media Crawler System'',
      techStack = ''Java '' @ bullet @ '' NodeJS '' @ bullet @ '' RabbitMQ '' @ bullet @ '' SQL Server '' @ bullet @ '' Microservices'',
      description = ''Scalable distributed crawler serving 9+ billion requests over 6 months with 99.99% availability. Flexible parsing system supporting 500+ content sources.'',
      ctaText = ''Case Study'',
      ctaLink = ''#'',
      icon = ZaloIcon imp\<rparr>,
    \<lparr>Project.title = ''Korean Educational Platform'',
      techStack = ''Java '' @ bullet @ '' PHP '' @ bullet @ '' VueJS '' @ bullet @ '' Moodle '' @ bullet @ '' MySQL '' @ bullet @ '' MongoDB'',
      description = ''Led development of educational platforms for Korean market. Helped achieve Moodle Silver Partner certification through delivery excellence and technical innovation.'',
      ctaText = ''Visit Platform'',
      ctaLink = ''https://www.unioncloud.org/'',
      icon = TagManagerIcon imp\<rparr>]
"

record StudyItem =
  title :: string
  institution :: string
  description :: string
  tags :: "string list"

definition studies :: "StudyItem list" where
  "studies =
[
    \<lparr>StudyItem.title = ''B.S. in Computer Science'',
      institution = ''Hanoi University of Science and Technology (HUST)'',
      description = ''Information System Department (SOICT). Focused on Information System Development Techniques and Technologies, Distributed System Development, Machine Learning, Information Retrieval, and Database systems.'',
      tags = [''Information Systems'', ''Distributed Systems'', ''Machine Learning'', ''Information Retrieval'', ''Natural Language Processing'', ''Image Processing'', ''Database'', ''Advanced Systems Programming'']\<rparr>]
"

record WorkItem =
  title :: string
  company :: string
  region :: string
  description :: string
  technologies :: "string list"

definition work :: "WorkItem list" where
  "work =
[
    \<lparr>WorkItem.title = ''Lead Software Developer'',
      company = ''MenuWise'',
      region = ''Hanoi, Vietnam'',
      description = ''Rescued project from 4-year development failure, delivering first feasible working system. Architected complete platform rebuild focusing on core recipe weight calculations and ingredient matching algorithms. Collaborated with dietitians and ML developers to transform domain expertise into scalable technical solutions.'',
      technologies = [''Docker'', ''PostgreSQL'', ''NestJS'', ''Next.js'', ''React'', ''Python'', ''Playwright'']\<rparr>,
    \<lparr>WorkItem.title = ''Lead Software Developer'',
      company = ''Your.Rentals'',
      region = ''Spain (Remote)'',
      description = ''Led team of 3 developers + 1 QA using Scrum methodology, delivered high-quality services with minimal user incidents. Architected integrations with Stripe, PayPal, Booking.com, and AirBNB. Managed feature operations maintaining 99%+ uptime.'',
      technologies = [''AWS'', ''Docker'', ''Kubernetes'', ''ArgoCD'', ''NestJS'', ''TypeScript'', ''AngularJS'', ''ReactJS'', ''PostgreSQL'']\<rparr>,
    \<lparr>WorkItem.title = ''Tech Lead'',
      company = ''Fetch Technology Hanoi'',
      region = ''Hanoi, Vietnam'',
      description = ''Led 7-member team delivering reservation system serving 1000+ merchants across multiple regions. Architected system handling 15,000 requests/minute during peak restaurant events. Integrated Google Maps Booking API with strict performance requirements.'',
      technologies = [''NodeJS'', ''NextJS'', ''TypeScript'', ''AWS'', ''EC2'', ''RDS'', ''PHP'', ''Laravel'', ''GitLab CI/CD'']\<rparr>,
    \<lparr>WorkItem.title = ''Senior Software Engineer'',
      company = ''Videa Edtech'',
      region = ''Hanoi, Vietnam'',
      description = ''Architected and built MVP from scratch in 3 months as solo developer. Built real-time chat and video conference system for online classroom sessions. Led 4-member team delivering Korean educational platform projects.'',
      technologies = [''NodeJS'', ''C#'', ''.NET'', ''VueJS'', ''WebRTC'', ''WebSocket'', ''MongoDB'', ''AWS'', ''Java'', ''PHP'', ''MySQL'']\<rparr>,
    \<lparr>WorkItem.title = ''Software Engineer'',
      company = ''Zalo'',
      region = ''Hanoi, Vietnam'',
      description = ''Architected scalable crawler system serving 9+ billion requests over 6 months with 99.99% availability. Built flexible content parsing system supporting 500+ content sources. Implemented microservices architecture splitting parsing logic into adaptable services.'',
      technologies = [''Java'', ''NodeJS'', ''Memcached'', ''RabbitMQ'', ''SQL Server'', ''Thrift'', ''ZiDB'', ''Linux'']\<rparr>]
"

section \<open>Work icons\<close>

text \<open>
  The work-history module also exports \<^verbatim>\<open>workIcons\<close>, an object literal whose three
  properties are calls of \<^verbatim>\<open>sanitizeToOutline\<close>, imported from \<^verbatim>\<open>../lib/svg\<close>. That module is
  not among the sources, so the sanitizer is a parameter of the model: a function from
  the markup and the stroke width to the normalized markup or an error. The two errors are
  the ones the specification names. The stroke width is a JavaScript number; the model
  takes the integers, which hold the literal every call site passes.
\<close>

text \<open>
  Modelled from the spec: the two failures of \<^verbatim>\<open>sanitizeToOutline\<close>, whose module \<^verbatim>\<open>../lib/svg\<close> is missing
  from the sources (section 7 names them).
\<close>

datatype error = MalformedMarkup | InvalidParameter

type_synonym sanitizer = "string \<Rightarrow> int \<Rightarrow> error + string"

record work_imports =
  jobIconRaw :: string
  companyIconRaw :: string
  locationIconRaw :: string

text \<open>
  The property initialisers of the object literal, in source order: the key, and the
  two arguments of the call that computes its value.
\<close>

definition workIcons_calls :: "work_imports \<Rightarrow> (string \<times> string \<times> int) list" where
  "workIcons_calls imp =
    [(''job'', jobIconRaw imp, 15),
     (''company'', companyIconRaw imp, 15),
     (''location'', locationIconRaw imp, 15)]"

text \<open>
  Evaluating the literal runs the calls from first to last; a call that fails aborts the
  evaluation (and with it the load of the module) with that error. The object is the
  list of its properties.
\<close>

fun eval_props :: "sanitizer \<Rightarrow> (string \<times> string \<times> int) list \<Rightarrow> error + (string \<times> string) list" where
  "eval_props san [] = Inr []"
| "eval_props san ((k, m, w) # cs) =
    (case san m w of
       Inl e \<Rightarrow> Inl e
     | Inr v \<Rightarrow> (case eval_props san cs of Inl e \<Rightarrow> Inl e | Inr kvs \<Rightarrow> Inr ((k, v) # kvs)))"

definition workIcons :: "sanitizer \<Rightarrow> work_imports \<Rightarrow> error + (string \<times> string) list" where
  "workIcons san imp = eval_props san (workIcons_calls imp)"

section \<open>Loading a data module\<close>

text \<open>
  A data module is its top-level statements in source order. An \<^verbatim>\<open>import\<close> binds a local
  name and exports nothing, \<^verbatim>\<open>export type\<close> is erased, and \<^verbatim>\<open>export const\<close> evaluates its
  initialiser once and binds the name to the result; an initialiser that throws aborts
  the load. A later write to an exported value is a statement form of its own, so that
  its absence from the three modules is a fact about them.
\<close>

datatype exported =
  Projects "Project list"
| Studies "StudyItem list"
| Work "WorkItem list"
| WorkIcons "(string \<times> string) list"

datatype statement =
  Import string
| ExportConst string "error + exported"
| ExportType string
| Write string exported

fun load :: "statement list \<Rightarrow> (string \<times> exported) list \<Rightarrow> error + (string \<times> exported) list" where
  "load [] ex = Inr ex"
| "load (Import x # ss) ex = load ss ex"
| "load (ExportType x # ss) ex = load ss ex"
| "load (ExportConst x (Inl e) # ss) ex = Inl e"
| "load (ExportConst x (Inr v) # ss) ex = load ss (ex @ [(x, v)])"
| "load (Write x v # ss) ex = load ss (map (\<lambda>b. if fst b = x then (x, v) else b) ex)"

fun is_write :: "statement \<Rightarrow> bool" where
  "is_write (Write x v) = True"
| "is_write (Import x) = False"
| "is_write (ExportConst x r) = False"
| "is_write (ExportType x) = False"

definition projects_ts :: "project_imports \<Rightarrow> statement list" where
  "projects_ts imp =
    [Import ''OddleIcon'', Import ''TagManagerIcon'', Import ''MenuWiseIcon'',
     Import ''YourRentalsIcon'', Import ''ZaloIcon'',
     ExportConst ''projects'' (Inr (Projects (projects imp))),
     ExportType ''Project'']"

definition studies_ts :: "statement list" where
  "studies_ts = [ExportConst ''studies'' (Inr (Studies studies)), ExportType ''StudyItem'']"

definition work_ts :: "sanitizer \<Rightarrow> work_imports \<Rightarrow> statement list" where
  "work_ts san imp =
    [Import ''jobIconRaw'', Import ''companyIconRaw'', Import ''locationIconRaw'',
     Import ''sanitizeToOutline'',
     ExportConst ''workIcons''
       (case workIcons san imp of Inl e \<Rightarrow> Inl e | Inr icons \<Rightarrow> Inr (WorkIcons icons)),
     ExportConst ''work'' (Inr (Work work)),
     ExportType ''WorkItem'']"

section \<open>Deployment script\<close>

text \<open>
  \<^verbatim>\<open>deploy.sh\<close> is a straight-line bash script: three variable assignments and three
  simple commands. A word of the script is a sequence of parts: literal text (bare or
  quoted, never split) and unquoted parameter expansions \<^verbatim>\<open>$NAME\<close>, whose values undergo
  field splitting at blanks. No word of the script holds a pattern character, so pathname
  expansion is left out.
\<close>

datatype part = Lit string | Var string

type_synonym word = "part list"

datatype stmt = Assign string word | Simple "word list"

record shell_state =
  vars :: "string \<Rightarrow> string option"
  invoked :: "string list list"
  status :: nat

definition ifs :: "char set" where
  "ifs = {CHR '' '', CHR 0x09, CHR 0x0A}"

definition lookup :: "(string \<Rightarrow> string option) \<Rightarrow> string \<Rightarrow> string" where
  "lookup env x = (case env x of None \<Rightarrow> [] | Some v \<Rightarrow> v)"

text \<open>The characters of an expanded part, each marked when it separates fields.\<close>

fun expand_part :: "(string \<Rightarrow> string option) \<Rightarrow> part \<Rightarrow> (char \<times> bool) list" where
  "expand_part env (Lit s) = map (\<lambda>c. (c, False)) s"
| "expand_part env (Var x) = map (\<lambda>c. (c, c \<in> ifs)) (lookup env x)"

fun split_fields :: "(char \<times> bool) list \<Rightarrow> string \<Rightarrow> string list" where
  "split_fields [] cur = (if cur = [] then [] else [cur])"
| "split_fields ((c, sep) # cs) cur =
    (if sep then (if cur = [] then split_fields cs [] else cur # split_fields cs [])
     else split_fields cs (cur @ [c]))"

definition fields :: "(string \<Rightarrow> string option) \<Rightarrow> word \<Rightarrow> string list" where
  "fields env w = split_fields (concat (map (expand_part env) w)) []"

text \<open>The value of an assignment is expanded but not split.\<close>

definition assigned :: "(string \<Rightarrow> string option) \<Rightarrow> word \<Rightarrow> string" where
  "assigned env w = map fst (concat (map (expand_part env) w))"

text \<open>
  A simple command expands to its argument vector and runs the external program; the
  script has no \<^verbatim>\<open>set -e\<close>, so the exit status (given by \<open>ext\<close>, which stands for the
  programs) is stored and the next statement runs whatever it is.
\<close>

fun exec :: "(string list \<Rightarrow> nat) \<Rightarrow> shell_state \<Rightarrow> stmt \<Rightarrow> shell_state" where
  "exec ext s (Assign x w) = s\<lparr>vars := (vars s)(x \<mapsto> assigned (vars s) w), status := 0\<rparr>"
| "exec ext s (Simple ws) =
    (let argv = concat (map (fields (vars s)) ws)
     in if argv = [] then s\<lparr>status := 0\<rparr>
        else s\<lparr>invoked := invoked s @ [argv], status := ext argv\<rparr>)"

definition run :: "(string list \<Rightarrow> nat) \<Rightarrow> shell_state \<Rightarrow> stmt list \<Rightarrow> shell_state" where
  "run ext s prog = foldl (exec ext) s prog"

text \<open>The shell at the start of the script: the inherited environment, nothing run yet.\<close>

definition start :: "(string \<Rightarrow> string option) \<Rightarrow> shell_state" where
  "start env = \<lparr>vars = env, invoked = [], status = 0\<rparr>"

definition deploy_sh :: "stmt list" where
  "deploy_sh =
    [Assign ''SERVER'' [Lit ''craftthecode.dev''],
     Assign ''USER'' [Lit ''hoanld''],
     Assign ''DEPLOY_PATH'' [Lit ''/usr/share/nginx/craftthecode.dev''],
     Simple [[Lit ''npm''], [Lit ''i'']],
     Simple [[Lit ''npm''], [Lit ''run''], [Lit ''build'']],
     Simple [[Lit ''rsync''], [Lit ''-auvrP''], [Lit ''--delete''],
             [Lit ''--rsync-path='', Lit ''sudo rsync''], [Lit ''./dist/''],
             [Var ''USER'', Lit ''@'', Var ''SERVER'', Lit '':'', Var ''DEPLOY_PATH'', Lit ''/'']]]"

fun is_command :: "stmt \<Rightarrow> bool" where
  "is_command (Simple ws) = True"
| "is_command (Assign x w) = False"

section \<open>The outline sanitizer\<close>

text \<open>
  The module \<^verbatim>\<open>../lib/svg\<close> that defines \<^verbatim>\<open>sanitizeToOutline\<close> is not among the sources. The
  definitions of this section are modelled from the specification, section 4.1: parse the
  markup into a tree, walk every node, strip or override the presentation attributes,
  serialize back. Everything the specification leaves open is fixed here in the simplest
  way and said so.
\<close>

subsection \<open>Markup\<close>

type_synonym attribute = "string \<times> string"

text \<open>
  Modelled from the spec: the markup of \<^verbatim>\<open>../lib/svg\<close> (missing) is \<^emph>\<open>tags, attributes,
  nested elements\<close>, so an element is a tag name, its attributes in order, and its child
  elements in order. Text content is not modelled.
\<close>

datatype element =
  Element (tag: string) (attributes: "attribute list") (children: "element list")

text \<open>
  Modelled from the spec: part of the missing parser: a tag is an opening tag, a closing tag, or
  the tag of an element without content.
\<close>

datatype token = Open string "attribute list" | Close string | Empty string "attribute list"

text \<open>
  Modelled from the spec: part of the missing parser: the blanks that may stand between tags and
  between attributes.
\<close>

definition is_space :: "char \<Rightarrow> bool" where
  "is_space c = (c \<in> {CHR '' '', CHR 0x09, CHR 0x0A, CHR 0x0D})"

text \<open>
  Modelled from the spec: part of the missing parser: the characters of tag and attribute names.
\<close>

definition is_name_char :: "char \<Rightarrow> bool" where
  "is_name_char c =
    (c \<in> set ''abcdefghijklmnopqrstuvwxyzABCDEFGHIJKLMNOPQRSTUVWXYZ0123456789-_:.'')"

subsection \<open>Parsing\<close>

text \<open>
  Modelled from the spec: the parser of \<^verbatim>\<open>../lib/svg\<close> (missing); the specification asks only
  that markup which \<^emph>\<open>does not parse as well-formed\<close> is refused. Well-formed here means:
  one root element; tags \<^verbatim>\<open><name attrs>\<close>, \<^verbatim>\<open><name attrs/>\<close> and \<^verbatim>\<open></name>\<close> properly nested; each
  attribute written \<^verbatim>\<open>name="value"\<close> after a blank; blanks allowed between tags. The lexer
  cuts the input into the texts between \<^verbatim>\<open><\<close> and \<^verbatim>\<open>>\<close>, reading a quoted attribute value
  through to its closing quote; input that ends inside a tag has no result.
\<close>

text \<open>
  Modelled from the spec: part of the missing parser: where the lexer stands, between tags, in a
  tag, or in a quoted attribute value, with the text of the tag read so far.
\<close>

datatype lexer = Between | InTag string | InValue string

fun tags :: "lexer \<Rightarrow> string \<Rightarrow> string list option" where
  "tags Between [] = Some []"
| "tags (InTag b) [] = None"
| "tags (InValue b) [] = None"
| "tags Between (c # cs) =
    (if c = CHR ''<'' then tags (InTag []) cs
     else if is_space c then tags Between cs
     else None)"
| "tags (InTag b) (c # cs) =
    (if c = CHR ''>'' then map_option ((#) b) (tags Between cs)
     else if c = CHR ''<'' then None
     else if c = CHR 0x22 then tags (InValue (b @ [c])) cs
     else tags (InTag (b @ [c])) cs)"
| "tags (InValue b) (c # cs) =
    (if c = CHR 0x22 then tags (InTag (b @ [c])) cs
     else tags (InValue (b @ [c])) cs)"

text \<open>
  Modelled from the spec: the attribute list of a tag, part of the missing parser. Each
  round reads one attribute and continues behind its closing quote, so the rest gets
  shorter.
\<close>

function parse_attrs :: "string \<Rightarrow> attribute list option" where
  "parse_attrs s =
    (if dropWhile is_space s = [] then Some []
     else if takeWhile is_space s = [] then None
     else
       let s1 = dropWhile is_space s;
           k = takeWhile is_name_char s1
       in if k = [] then None
          else (case dropWhile is_space (dropWhile is_name_char s1) of
                  [] \<Rightarrow> None
                | e # s2 \<Rightarrow>
                    if e \<noteq> CHR ''='' then None
                    else (case dropWhile is_space s2 of
                            [] \<Rightarrow> None
                          | q # s3 \<Rightarrow>
                              if q \<noteq> CHR 0x22 then None
                              else (case dropWhile (\<lambda>c. c \<noteq> CHR 0x22) s3 of
                                      [] \<Rightarrow> None
                                    | q' # s4 \<Rightarrow>
                                        map_option ((#) (k, takeWhile (\<lambda>c. c \<noteq> CHR 0x22) s3))
                                          (parse_attrs s4)))))"
  by pat_completeness auto
termination
proof (relation "measure length", goal_cases)
  case 1
  show ?case by simp
next
  case (2 s s1 k e s2 q s3 q' s4)
  have "length s4 < length s3"
    using 2 length_dropWhile_le [of "\<lambda>c. c \<noteq> CHR 0x22" s3] by simp
  also have "length s3 < length s2"
    using 2 length_dropWhile_le [of is_space s2] by simp
  also have "length s2 < length (dropWhile is_name_char s1)"
    using 2 length_dropWhile_le [of is_space "dropWhile is_name_char s1"] by simp
  also have "\<dots> \<le> length s1" by (rule length_dropWhile_le)
  also have "\<dots> \<le> length s" using 2 by (simp add: length_dropWhile_le)
  finally show ?case by simp
qed

declare parse_attrs.simps [simp del]

text \<open>
  Modelled from the spec: part of the missing parser: the text of one tag. A leading slash makes a
  closing tag, a trailing slash an element without content; the name comes first, the
  attributes after it.
\<close>

definition parse_tag :: "string \<Rightarrow> token option" where
  "parse_tag b =
    (case b of
       [] \<Rightarrow> None
     | c # cs \<Rightarrow>
         if c = CHR ''/'' then
           (if takeWhile is_name_char cs \<noteq> [] \<and> dropWhile is_space (dropWhile is_name_char cs) = []
            then Some (Close (takeWhile is_name_char cs)) else None)
         else
           let n = takeWhile is_name_char b; r = dropWhile is_name_char b
           in if n = [] then None
              else if r \<noteq> [] \<and> last r = CHR ''/'' then map_option (Empty n) (parse_attrs (butlast r))
              else map_option (Open n) (parse_attrs r))"

text \<open>
  Modelled from the spec: part of the missing parser: every tag text must be a tag.
\<close>

fun tokens :: "string list \<Rightarrow> token list option" where
  "tokens [] = Some []"
| "tokens (b # bs) =
    (case parse_tag b of
       None \<Rightarrow> None
     | Some t \<Rightarrow> map_option ((#) t) (tokens bs))"

text \<open>
  Modelled from the spec: part of the missing parser: proper nesting. The tree is built with the stack of the elements that are open: their names, their
  attributes and the children read so far. A closing tag must name the innermost open
  element; the root must be the whole input.
\<close>

type_synonym frame = "string \<times> attribute list \<times> element list"

fun build :: "token list \<Rightarrow> frame list \<Rightarrow> element option" where
  "build [] st = None"
| "build (Open n as # ts) st = build ts ((n, as, []) # st)"
| "build (Empty n as # ts) [] = (if ts = [] then Some (Element n as []) else None)"
| "build (Empty n as # ts) ((pn, pas, kids) # st) =
    build ts ((pn, pas, kids @ [Element n as []]) # st)"
| "build (Close n # ts) [] = None"
| "build (Close n # ts) [(pn, pas, kids)] =
    (if n = pn \<and> ts = [] then Some (Element pn pas kids) else None)"
| "build (Close n # ts) ((pn, pas, kids) # (gn, gas, gkids) # st) =
    (if n = pn then build ts ((gn, gas, gkids @ [Element pn pas kids]) # st) else None)"

text \<open>
  Modelled from the spec: the parser of \<^verbatim>\<open>../lib/svg\<close> (missing) as a whole: lexer, tags, tree;
  \<open>None\<close> is markup that is not well-formed.
\<close>

definition parse :: "string \<Rightarrow> element option" where
  "parse s =
    (case tags Between s of
       None \<Rightarrow> None
     | Some bs \<Rightarrow> (case tokens bs of None \<Rightarrow> None | Some ts \<Rightarrow> build ts []))"

subsection \<open>Serializing\<close>

text \<open>
  Modelled from the spec: the serializer of \<^verbatim>\<open>../lib/svg\<close> (missing), \<^emph>\<open>serialize back to a
  string\<close>. An attribute is written \<^verbatim>\<open> name="value"\<close>, an element without children as
  \<^verbatim>\<open><name attrs/>\<close>, and no blank is written between tags.
\<close>

definition serialize_attr :: "attribute \<Rightarrow> string" where
  "serialize_attr a = '' '' @ fst a @ ''='' @ [CHR 0x22] @ snd a @ [CHR 0x22]"

text \<open>
  Modelled from the spec: the serializer of \<^verbatim>\<open>../lib/svg\<close> (missing), element by element.
\<close>

fun serialize :: "element \<Rightarrow> string" where
  "serialize (Element n as kids) =
    ''<'' @ n @ concat (map serialize_attr as) @
    (if kids = [] then ''/>''
     else ''>'' @ concat (map serialize kids) @ ''</'' @ n @ ''>'')"

text \<open>
  The same text, tag by tag: the tokens of an element and the text of each token. The
  proofs about \<open>parse\<close> go through them.
\<close>

fun body_of :: "token \<Rightarrow> string" where
  "body_of (Open n as) = n @ concat (map serialize_attr as)"
| "body_of (Close n) = ''/'' @ n"
| "body_of (Empty n as) = n @ concat (map serialize_attr as) @ ''/''"

definition tag_text :: "token \<Rightarrow> string" where
  "tag_text t = ''<'' @ body_of t @ ''>''"

fun toks :: "element \<Rightarrow> token list" where
  "toks (Element n as kids) =
    (if kids = [] then [Empty n as]
     else Open n as # concat (map toks kids) @ [Close n])"

subsection \<open>The stroke width as text\<close>

text \<open>
  Modelled from the spec: how \<^verbatim>\<open>../lib/svg\<close> (missing) writes the number; the specification's
  example writes the stroke width 15 as \<^verbatim>\<open>15\<close>, the decimal digits.
\<close>

definition digit :: "nat \<Rightarrow> char" where
  "digit d = ''0123456789'' ! d"

text \<open>
  Modelled from the spec: part of the missing number output: the decimal digits of a natural number.
\<close>

fun digits :: "nat \<Rightarrow> string" where
  "digits n = (if n < 10 then [digit n] else digits (n div 10) @ [digit (n mod 10)])"

text \<open>
  Modelled from the spec: part of the missing number output: an integer with its sign.
\<close>

definition show_int :: "int \<Rightarrow> string" where
  "show_int i = (if i < 0 then ''-'' @ digits (nat (- i)) else digits (nat i))"

subsection \<open>Style declarations\<close>

text \<open>
  Modelled from the spec: the handling in \<^verbatim>\<open>../lib/svg\<close> (missing) of a \<^emph>\<open>style property\<close>:
  the value of a \<^verbatim>\<open>style\<close> attribute is a list of declarations \<^verbatim>\<open>property:value\<close> separated by
  semicolons. A declaration of \<^verbatim>\<open>fill\<close> becomes \<^verbatim>\<open>fill:none\<close>, a declaration of
  \<^verbatim>\<open>stroke-width\<close> gets the supplied width, and every other piece is kept as it is.
\<close>

fun split_on :: "char \<Rightarrow> string \<Rightarrow> string list" where
  "split_on c [] = [[]]"
| "split_on c (x # xs) =
    (if x = c then [] # split_on c xs
     else (case split_on c xs of [] \<Rightarrow> [[x]] | h # t \<Rightarrow> (x # h) # t))"

text \<open>
  Modelled from the spec: part of the missing style handling: the pieces put together again with the
  separator between them.
\<close>

fun join :: "char \<Rightarrow> string list \<Rightarrow> string" where
  "join c [] = []"
| "join c [s] = s"
| "join c (s # t # ss) = s @ c # join c (t # ss)"

text \<open>
  Modelled from the spec: part of the missing style handling: a text without its leading and
  trailing blanks.
\<close>

definition trim :: "string \<Rightarrow> string" where
  "trim s = rev (dropWhile is_space (rev (dropWhile is_space s)))"

text \<open>
  Modelled from the spec: part of the missing style handling: a piece with a colon is a
  declaration.
\<close>

definition is_declaration :: "string \<Rightarrow> bool" where
  "is_declaration d = (CHR '':'' \<in> set d)"

text \<open>
  Modelled from the spec: part of the missing style handling: the property a declaration names,
  before the first colon.
\<close>

definition property :: "string \<Rightarrow> string" where
  "property d = trim (takeWhile (\<lambda>c. c \<noteq> CHR '':'') d)"

text \<open>
  Modelled from the spec: part of the missing style handling: the value a declaration gives, after
  the first colon.
\<close>

definition declared :: "string \<Rightarrow> string" where
  "declared d = trim (drop 1 (dropWhile (\<lambda>c. c \<noteq> CHR '':'') d))"

text \<open>
  Modelled from the spec: the edit of one style declaration in \<^verbatim>\<open>../lib/svg\<close> (missing).
\<close>

definition sanitize_declaration :: "int \<Rightarrow> string \<Rightarrow> string" where
  "sanitize_declaration strokeWidth d =
    (if is_declaration d \<and> property d = ''fill'' then ''fill:none''
     else if is_declaration d \<and> property d = ''stroke-width''
       then ''stroke-width:'' @ show_int strokeWidth
     else d)"

text \<open>
  Modelled from the spec: the edit of a \<^verbatim>\<open>style\<close> value in \<^verbatim>\<open>../lib/svg\<close> (missing): split, edit
  each declaration, join.
\<close>

definition sanitize_style :: "int \<Rightarrow> string \<Rightarrow> string" where
  "sanitize_style strokeWidth v =
    join CHR '';'' (map (sanitize_declaration strokeWidth) (split_on CHR '';'' v))"

subsection \<open>The transformation\<close>

text \<open>
  Modelled from the spec: the attributes \<^verbatim>\<open>../lib/svg\<close> (missing) strips as \<^emph>\<open>element
  identifier or cross-reference attribute used for gradients/clip-paths\<close>. The
  specification does not list them; these four are taken.
\<close>

definition identifier_attributes :: "string list" where
  "identifier_attributes = [''id'', ''clip-path'', ''href'', ''xlink:href'']"

text \<open>
  Modelled from the spec: the edit of one attribute in \<^verbatim>\<open>../lib/svg\<close> (missing). Of \<^emph>\<open>removed
  or forced to the semantic value none\<close> the second is taken for \<^verbatim>\<open>fill\<close>; \<^verbatim>\<open>stroke-width\<close> is
  \<^emph>\<open>overwritten with the single supplied value\<close>; a \<^verbatim>\<open>style\<close> value is rewritten declaration
  by declaration.
\<close>

definition sanitize_attribute :: "int \<Rightarrow> attribute \<Rightarrow> attribute" where
  "sanitize_attribute strokeWidth a =
    (if fst a = ''fill'' then (fst a, ''none'')
     else if fst a = ''stroke-width'' then (fst a, show_int strokeWidth)
     else if fst a = ''style'' then (fst a, sanitize_style strokeWidth (snd a))
     else a)"

text \<open>
  Modelled from the spec: the walk of \<^verbatim>\<open>../lib/svg\<close> (missing), which \<^emph>\<open>must visit every
  descendant element\<close>: the element keeps its name and its children in order, each child
  is sanitized the same way.
\<close>

fun sanitize_element :: "int \<Rightarrow> element \<Rightarrow> element" where
  "sanitize_element strokeWidth (Element n as kids) =
    Element n
      (map (sanitize_attribute strokeWidth) (filter (\<lambda>a. fst a \<notin> set identifier_attributes) as))
      (map (sanitize_element strokeWidth) kids)"

text \<open>
  Modelled from the spec: \<^verbatim>\<open>sanitizeToOutline\<close> of \<^verbatim>\<open>../lib/svg\<close> (missing). A stroke width that
  is not positive fails with \<^verbatim>\<open>InvalidParameter\<close> (\<^emph>\<open>propagated immediately\<close>, so it is
  checked first), markup that does not parse fails with \<^verbatim>\<open>MalformedMarkup\<close>, and otherwise
  the result is the serialized sanitized tree.
\<close>

definition sanitizeToOutline :: "string \<Rightarrow> int \<Rightarrow> error + string" where
  "sanitizeToOutline rawMarkup strokeWidth =
    (if strokeWidth \<le> 0 then Inl InvalidParameter
     else (case parse rawMarkup of
             None \<Rightarrow> Inl MalformedMarkup
           | Some root \<Rightarrow> Inr (serialize (sanitize_element strokeWidth root))))"

subsection \<open>What is observed of a tree\<close>

text \<open>The root and all its descendants, parents first.\<close>

fun elements :: "element \<Rightarrow> element list" where
  "elements (Element n as kids) = Element n as kids # concat (map elements kids)"

text \<open>
  The values an element gives to a presentation property \<open>p\<close>: by an attribute of that
  name, and by a declaration of that property in a \<^verbatim>\<open>style\<close> attribute.
\<close>

definition style_values :: "string \<Rightarrow> string \<Rightarrow> string list" where
  "style_values p v =
    map declared (filter (\<lambda>d. is_declaration d \<and> property d = p) (split_on CHR '';'' v))"

definition presentation_values :: "string \<Rightarrow> element \<Rightarrow> string list" where
  "presentation_values p e =
    map snd (filter (\<lambda>a. fst a = p) (attributes e)) @
    concat (map (\<lambda>a. style_values p (snd a)) (filter (\<lambda>a. fst a = ''style'') (attributes e)))"

text \<open>
  The attributes the sanitizer may touch, and what is left of a tree without them: the
  element names, their nesting and order, and every other attribute (the geometry: \<^verbatim>\<open>d\<close>,
  \<^verbatim>\<open>points\<close>, \<^verbatim>\<open>cx\<close>, \<^verbatim>\<open>viewBox\<close>, \<^verbatim>\<open>transform\<close>, ...) with its value.
\<close>

definition presentation_attributes :: "string list" where
  "presentation_attributes = [''fill'', ''stroke-width'', ''style''] @ identifier_attributes"

fun skeleton :: "element \<Rightarrow> element" where
  "skeleton (Element n as kids) =
    Element n (filter (\<lambda>a. fst a \<notin> set presentation_attributes) as) (map skeleton kids)"

subsection \<open>Trees that the serializer writes readably\<close>

definition valid_name :: "string \<Rightarrow> bool" where
  "valid_name n = (n \<noteq> [] \<and> (\<forall>c \<in> set n. is_name_char c))"

definition valid_attribute :: "attribute \<Rightarrow> bool" where
  "valid_attribute a = (valid_name (fst a) \<and> CHR 0x22 \<notin> set (snd a))"

fun valid_element :: "element \<Rightarrow> bool" where
  "valid_element (Element n as kids) =
    (valid_name n \<and> (\<forall>a \<in> set as. valid_attribute a) \<and> (\<forall>k \<in> set kids. valid_element k))"

fun valid_token :: "token \<Rightarrow> bool" where
  "valid_token (Open n as) = (valid_name n \<and> (\<forall>a \<in> set as. valid_attribute a))"
| "valid_token (Close n) = valid_name n"
| "valid_token (Empty n as) = (valid_name n \<and> (\<forall>a \<in> set as. valid_attribute a))"

definition valid_frame :: "frame \<Rightarrow> bool" where
  "valid_frame f = (case f of (n, as, kids) \<Rightarrow> valid_element (Element n as kids))"

section \<open>What the data modules export\<close>




section \<open>The call sites of the sanitizer\<close>

text \<open>
  A list of calls whose stroke widths are all positive cannot end in \<^verbatim>\<open>InvalidParameter\<close>
  when the sanitizer keeps the contract: by induction on the calls, the first failure is
  the failure of one call.
\<close>

lemma eval_props_no_InvalidParameter:
  assumes "\<forall>m w. 0 < w \<longrightarrow> san m w \<noteq> Inl InvalidParameter"
    and "\<forall>c \<in> set cs. 0 < snd (snd c)"
  shows "eval_props san cs \<noteq> Inl InvalidParameter"
  using assms(2)
proof (induction cs)
  case Nil
  show ?case by simp
next
  case (Cons c cs)
  obtain k m w where c: "c = (k, m, w)" by (cases c)
  from Cons.prems c have "0 < w" by simp
  with assms(1) have "san m w \<noteq> Inl InvalidParameter" by blast
  moreover from Cons have "eval_props san cs \<noteq> Inl InvalidParameter" by simp
  ultimately show ?case
    by (auto simp: c split: sum.splits)
qed

text \<open>
  C9. \<^verbatim>\<open>sanitizeToOutline\<close> is called at three places, the initialisers of the properties
  \<^verbatim>\<open>job\<close>, \<^verbatim>\<open>company\<close> and \<^verbatim>\<open>location\<close> of \<^verbatim>\<open>workIcons\<close>, and each passes the stroke width 15,
  which is positive. So for every sanitizer that keeps the contract (it raises
  \<^verbatim>\<open>InvalidParameter\<close> only for a stroke width that is not positive), evaluating
  \<^verbatim>\<open>workIcons\<close> never ends in \<^verbatim>\<open>InvalidParameter\<close>, whatever the three icon files hold. The
  object is the value of one evaluation of the literal, at the load of the module.
\<close>

theorem workIcons_InvalidParameter_unreachable:
  assumes "\<forall>m w. 0 < w \<longrightarrow> san m w \<noteq> Inl InvalidParameter"
  shows "map fst (workIcons_calls imp) = [''job'', ''company'', ''location'']
       \<and> map (snd \<circ> snd) (workIcons_calls imp) = [15, 15, 15]
       \<and> (\<forall>c \<in> set (workIcons_calls imp). 0 < snd (snd c))
       \<and> workIcons san imp \<noteq> Inl InvalidParameter"
proof -
  have calls: "\<forall>c \<in> set (workIcons_calls imp). 0 < snd (snd c)"
    by (simp add: workIcons_calls_def)
  have "workIcons san imp \<noteq> Inl InvalidParameter"
    unfolding workIcons_def using assms calls by (rule eval_props_no_InvalidParameter)
  with calls show ?thesis
    by (simp add: workIcons_calls_def)
qed

theorem workIcons_InvalidParameter_unreachable_witness:
  "workIcons
     (\<lambda>m w. if w \<le> 0 then Inl InvalidParameter else if m = [] then Inl MalformedMarkup else Inr m)
     \<lparr>jobIconRaw = ''<svg id=\"j\"/>'', companyIconRaw = ''<svg id=\"c\"/>'',
      locationIconRaw = ''<svg id=\"l\"/>''\<rparr>
   = Inr [(''job'', ''<svg id=\"j\"/>''), (''company'', ''<svg id=\"c\"/>''),
          (''location'', ''<svg id=\"l\"/>'')]
   \<and> workIcons
     (\<lambda>m w. if w \<le> 0 then Inl InvalidParameter else if m = [] then Inl MalformedMarkup else Inr m)
     \<lparr>jobIconRaw = ''<svg id=\"j\"/>'', companyIconRaw = [], locationIconRaw = ''<svg id=\"l\"/>''\<rparr>
   \<noteq> Inl InvalidParameter"
proof -
  let ?san = "\<lambda>m w. if w \<le> 0 then Inl InvalidParameter
                     else if m = [] then Inl MalformedMarkup else Inr (m :: string)"
  have contract: "\<forall>m w. 0 < (w :: int) \<longrightarrow> ?san m w \<noteq> Inl InvalidParameter"
    by simp
  have loaded: "workIcons ?san
     \<lparr>jobIconRaw = ''<svg id=\"j\"/>'', companyIconRaw = ''<svg id=\"c\"/>'',
      locationIconRaw = ''<svg id=\"l\"/>''\<rparr>
   = Inr [(''job'', ''<svg id=\"j\"/>''), (''company'', ''<svg id=\"c\"/>''),
          (''location'', ''<svg id=\"l\"/>'')]"
    by (simp add: workIcons_def workIcons_calls_def)
  from workIcons_InvalidParameter_unreachable [OF contract] loaded show ?thesis
    by blast
qed

section \<open>What the deployment script runs\<close>

text \<open>
  C10. From any inherited environment, and whatever the programs it starts return, the
  script runs exactly three programs in this order: \<^verbatim>\<open>npm i\<close> (the dependency install),
  \<^verbatim>\<open>npm run build\<close> (the build), and \<^verbatim>\<open>rsync\<close> of \<^verbatim>\<open>./dist/\<close> to the destination
  \<^verbatim>\<open>hoanld@craftthecode.dev:/usr/share/nginx/craftthecode.dev/\<close>, the form
  \<^verbatim>\<open>user@host:path\<close> that rsync reaches through a remote shell. The rest of the script is
  the three assignments that build this destination.
\<close>

theorem deploy_sh_invocations:
  "invoked (run ext (start env) deploy_sh) =
     [[''npm'', ''i''],
      [''npm'', ''run'', ''build''],
      [''rsync'', ''-auvrP'', ''--delete'', ''--rsync-path=sudo rsync'', ''./dist/'',
       ''hoanld'' @ ''@'' @ ''craftthecode.dev'' @ '':'' @ ''/usr/share/nginx/craftthecode.dev'' @ ''/'']]
   \<and> map is_command deploy_sh = [False, False, False, True, True, True]"
  by (simp add: run_def start_def deploy_sh_def fields_def assigned_def lookup_def ifs_def Let_def)

section \<open>The sanitizer on trees\<close>

subsection \<open>Splitting and joining, digits\<close>

lemma split_on_not_Nil: "split_on c s \<noteq> []"
  by (induction s) (auto split: list.splits)

lemma split_on_pieces: "d \<in> set (split_on c s) \<Longrightarrow> c \<notin> set d \<and> set d \<subseteq> set s"
proof (induction s arbitrary: d)
  case Nil
  then show ?case by simp
next
  case (Cons x xs)
  show ?case
  proof (cases "x = c")
    case True
    with Cons show ?thesis by auto
  next
    case False
    obtain h t where ht: "split_on c xs = h # t"
      using split_on_not_Nil [of c xs] by (cases "split_on c xs") auto
    with Cons.prems False have "d = x # h \<or> d \<in> set t" by simp
    moreover have "c \<notin> set h \<and> set h \<subseteq> set xs" using Cons.IH [of h] ht by simp
    moreover have "d \<in> set t \<Longrightarrow> c \<notin> set d \<and> set d \<subseteq> set xs" using Cons.IH [of d] ht by simp
    ultimately show ?thesis using False by auto
  qed
qed

lemma split_on_join:
  "ds \<noteq> [] \<Longrightarrow> \<forall>d \<in> set ds. c \<notin> set d \<Longrightarrow> split_on c (join c ds) = ds"
proof (induction c ds rule: join.induct)
  case (1 c)
  then show ?case by simp
next
  case (2 c s)
  then show ?case by (induction s) auto
next
  case (3 c s t ss)
  then have IH: "split_on c (join c (t # ss)) = t # ss" by simp
  from 3 have "c \<notin> set s" by simp
  then have "split_on c (s @ c # join c (t # ss)) = s # split_on c (join c (t # ss))"
    by (induction s) auto
  with IH show ?case by simp
qed

lemma set_join: "set (join c ds) \<subseteq> insert c (\<Union>d \<in> set ds. set d)"
  by (induction c ds rule: join.induct) auto

lemma digit_in: "d < 10 \<Longrightarrow> digit d \<in> set ''0123456789''"
  unfolding digit_def by (rule nth_mem) simp

lemma digits_in: "set (digits n) \<subseteq> set ''0123456789''"
proof (induction n rule: digits.induct)
  case (1 n)
  show ?case
  proof (cases "n < 10")
    case True
    then show ?thesis using digit_in [of n] by (subst digits.simps) simp
  next
    case False
    have "n mod 10 < 10" by simp
    then have "digit (n mod 10) \<in> set ''0123456789''" by (rule digit_in)
    with False 1 show ?thesis by (subst digits.simps) simp
  qed
qed

lemma show_int_in: "0 < i \<Longrightarrow> set (show_int i) \<subseteq> set ''0123456789''"
  using digits_in by (simp add: show_int_def)

subsection \<open>Fill values and the skeleton after the walk\<close>

text \<open>
  The walk edits every element of the tree, and an edited element gives \<^verbatim>\<open>fill\<close> no value
  but \<^verbatim>\<open>none\<close>, by attribute or by style declaration. It leaves the skeleton as it was.
\<close>

lemma sanitize_declaration_no_sep:
  "0 < w \<Longrightarrow> CHR '';'' \<notin> set d \<Longrightarrow> CHR '';'' \<notin> set (sanitize_declaration w d)"
  using show_int_in [of w] by (auto simp: sanitize_declaration_def)

lemma property_fill_none: "property ''fill:none'' = ''fill''" "declared ''fill:none'' = ''none''"
  by (simp_all add: property_def declared_def trim_def is_space_def)

lemma property_stroke_width: "property (''stroke-width:'' @ s) = ''stroke-width''"
  by (simp add: property_def trim_def is_space_def)

lemma sanitize_declaration_fill:
  assumes "is_declaration (sanitize_declaration w d)"
    and "property (sanitize_declaration w d) = ''fill''"
  shows "declared (sanitize_declaration w d) = ''none''"
proof (cases "is_declaration d \<and> property d = ''fill''")
  case True
  then show ?thesis by (simp add: sanitize_declaration_def property_fill_none)
next
  case False
  show ?thesis
  proof (cases "is_declaration d \<and> property d = ''stroke-width''")
    case True
    with False have "sanitize_declaration w d = ''stroke-width:'' @ show_int w"
      by (auto simp: sanitize_declaration_def)
    then have "property (sanitize_declaration w d) = ''stroke-width''"
      by (simp only: property_stroke_width)
    with assms(2) show ?thesis by simp
  next
    case no: False
    with False have "sanitize_declaration w d = d" by (auto simp: sanitize_declaration_def)
    with assms False show ?thesis by simp
  qed
qed

lemma split_on_sanitize_style:
  assumes "0 < w"
  shows "split_on CHR '';'' (sanitize_style w v) = map (sanitize_declaration w) (split_on CHR '';'' v)"
  unfolding sanitize_style_def
proof (rule split_on_join)
  show "map (sanitize_declaration w) (split_on CHR '';'' v) \<noteq> []"
    by (simp add: split_on_not_Nil)
  show "\<forall>d \<in> set (map (sanitize_declaration w) (split_on CHR '';'' v)). CHR '';'' \<notin> set d"
  proof
    fix d assume "d \<in> set (map (sanitize_declaration w) (split_on CHR '';'' v))"
    then obtain d' where d': "d' \<in> set (split_on CHR '';'' v)" "d = sanitize_declaration w d'"
      by auto
    from d'(1) have "CHR '';'' \<notin> set d'" by (simp add: split_on_pieces)
    with assms d'(2) show "CHR '';'' \<notin> set d" by (simp add: sanitize_declaration_no_sep)
  qed
qed

lemma style_values_fill_sanitize_style:
  assumes "0 < w" and "x \<in> set (style_values ''fill'' (sanitize_style w v))"
  shows "x = ''none''"
  using assms(2) unfolding style_values_def split_on_sanitize_style [OF assms(1)]
  by (auto simp: sanitize_declaration_fill)

lemma fst_sanitize_attribute: "fst (sanitize_attribute w a) = fst a"
  by (simp add: sanitize_attribute_def)

lemma attribute_fill_sanitize:
  "fst (sanitize_attribute w a) = ''fill'' \<Longrightarrow> snd (sanitize_attribute w a) = ''none''"
  by (simp add: sanitize_attribute_def split: if_splits)

lemma attribute_style_sanitize:
  assumes "0 < w" and "fst (sanitize_attribute w a) = ''style''"
    and "x \<in> set (style_values ''fill'' (snd (sanitize_attribute w a)))"
  shows "x = ''none''"
proof -
  from assms(2) have "fst a = ''style''" by (simp add: fst_sanitize_attribute)
  then have "snd (sanitize_attribute w a) = sanitize_style w (snd a)"
    by (simp add: sanitize_attribute_def)
  with assms(1,3) show ?thesis by (auto dest: style_values_fill_sanitize_style)
qed

lemma presentation_values_cases:
  assumes "x \<in> set (presentation_values p e)"
  shows "(\<exists>a \<in> set (attributes e). fst a = p \<and> x = snd a) \<or>
         (\<exists>a \<in> set (attributes e). fst a = ''style'' \<and> x \<in> set (style_values p (snd a)))"
  using assms by (fastforce simp: presentation_values_def)

lemma attributes_sanitize_element:
  "a \<in> set (attributes (sanitize_element w e)) \<Longrightarrow> \<exists>b. a = sanitize_attribute w b"
  by (cases e) auto

lemma presentation_values_fill_sanitize:
  assumes "0 < w" and "x \<in> set (presentation_values ''fill'' (sanitize_element w e))"
  shows "x = ''none''"
  using presentation_values_cases [OF assms(2)]
proof
  assume "\<exists>a \<in> set (attributes (sanitize_element w e)). fst a = ''fill'' \<and> x = snd a"
  then obtain a where a: "a \<in> set (attributes (sanitize_element w e))" "fst a = ''fill''" "x = snd a"
    by blast
  from a(1) obtain b where "a = sanitize_attribute w b"
    by (blast dest: attributes_sanitize_element)
  with a(2,3) show ?thesis by (simp add: attribute_fill_sanitize)
next
  assume "\<exists>a \<in> set (attributes (sanitize_element w e)).
            fst a = ''style'' \<and> x \<in> set (style_values ''fill'' (snd a))"
  then obtain a where a: "a \<in> set (attributes (sanitize_element w e))" "fst a = ''style''"
    "x \<in> set (style_values ''fill'' (snd a))" by blast
  from a(1) obtain b where "a = sanitize_attribute w b"
    by (blast dest: attributes_sanitize_element)
  with a(2,3) assms(1) show ?thesis by (simp add: attribute_style_sanitize)
qed

lemma elements_sanitize_element:
  "elements (sanitize_element w e) = map (sanitize_element w) (elements e)"
proof (induction e)
  case (Element n as kids)
  have "concat (map elements (map (sanitize_element w) kids)) =
        map (sanitize_element w) (concat (map elements kids))"
    using Element by (induction kids) auto
  then show ?case by simp
qed

lemma fill_sanitize_element:
  assumes "0 < w" and "e' \<in> set (elements (sanitize_element w e))"
    and "x \<in> set (presentation_values ''fill'' e')"
  shows "x = ''none''"
proof -
  from assms(2) obtain d where "e' = sanitize_element w d"
    by (auto simp: elements_sanitize_element)
  with assms(1,3) show ?thesis by (auto dest: presentation_values_fill_sanitize)
qed

lemma skeleton_attributes:
  "filter (\<lambda>a. fst a \<notin> set presentation_attributes)
     (map (sanitize_attribute w) (filter (\<lambda>a. fst a \<notin> set identifier_attributes) as)) =
   filter (\<lambda>a. fst a \<notin> set presentation_attributes) as"
  by (induction as)
    (auto simp: sanitize_attribute_def presentation_attributes_def identifier_attributes_def)

lemma skeleton_sanitize_element: "skeleton (sanitize_element w e) = skeleton e"
proof (induction e)
  case (Element n as kids)
  then have "map (skeleton \<circ> sanitize_element w) kids = map skeleton kids"
    by (induction kids) auto
  then show ?case by (simp add: skeleton_attributes)
qed

section \<open>Parsing what the serializer wrote\<close>

text \<open>
  The serialized text of a valid tree parses to that tree: attribute lists first, then
  single tags, the lexer over a sequence of tags, and the stack machine over the tokens
  of a tree.
\<close>

lemma name_char_facts:
  "is_name_char c \<Longrightarrow> \<not> is_space c \<and> c \<noteq> CHR ''='' \<and> c \<noteq> CHR 0x22 \<and> c \<noteq> CHR ''<''
     \<and> c \<noteq> CHR ''>'' \<and> c \<noteq> CHR ''/''"
  by (auto simp: is_name_char_def is_space_def)

lemma span_until:
  "\<forall>x \<in> set xs. P x \<Longrightarrow> \<not> P y \<Longrightarrow>
     takeWhile P (xs @ y # ys) = xs \<and> dropWhile P (xs @ y # ys) = y # ys"
  by (induction xs) auto

lemma parse_attrs_Nil: "parse_attrs [] = Some []"
  by (subst parse_attrs.simps) simp

lemma parse_attrs_serialize_attr:
  assumes "valid_attribute a"
  shows "parse_attrs (serialize_attr a @ rest) = map_option ((#) a) (parse_attrs rest)"
proof -
  obtain k v where a: "a = (k, v)" by (cases a)
  from assms a have k: "k \<noteq> []" "\<forall>c \<in> set k. is_name_char c" and v: "\<forall>c \<in> set v. c \<noteq> CHR 0x22"
    by (auto simp: valid_attribute_def valid_name_def)
  from k obtain c k' where ck: "k = c # k'" "\<not> is_space c"
    by (cases k) (auto simp: name_char_facts)
  let ?closing = "CHR 0x22 # rest"
  let ?quoted = "v @ ?closing"
  let ?after_name = "CHR ''='' # CHR 0x22 # ?quoted"
  let ?s1 = "k @ ?after_name"
  have s: "serialize_attr a @ rest = CHR '' '' # ?s1"
    by (simp add: serialize_attr_def a)
  have d1: "dropWhile is_space (CHR '' '' # ?s1) = ?s1"
    using ck by (simp add: is_space_def)
  have t1: "takeWhile is_space (CHR '' '' # ?s1) = '' ''"
    using ck by (simp add: is_space_def)
  have n: "takeWhile is_name_char ?s1 = k" "dropWhile is_name_char ?s1 = ?after_name"
    using span_until [of k is_name_char "CHR ''=''"] k(2) by (simp_all add: is_name_char_def)
  have d2: "dropWhile is_space ?after_name = ?after_name"
    by (simp add: is_space_def)
  have d3: "dropWhile is_space (CHR 0x22 # ?quoted) = CHR 0x22 # ?quoted"
    by (simp add: is_space_def)
  have val: "takeWhile (\<lambda>c. c \<noteq> CHR 0x22) ?quoted = v"
    "dropWhile (\<lambda>c. c \<noteq> CHR 0x22) ?quoted = ?closing"
    using span_until [of v "\<lambda>c. c \<noteq> CHR 0x22" "CHR 0x22"] v by simp_all
  show ?thesis
    unfolding s
    by (subst parse_attrs.simps) (simp add: d1 t1 n d2 d3 val k(1) a Let_def del: dropWhile.simps takeWhile.simps)
qed

lemma parse_attrs_serialize:
  "\<forall>a \<in> set as. valid_attribute a \<Longrightarrow> parse_attrs (concat (map serialize_attr as)) = Some as"
  by (induction as) (simp_all add: parse_attrs_Nil parse_attrs_serialize_attr)

lemma attrs_text_cases:
  "concat (map serialize_attr as) = [] \<or>
   (concat (map serialize_attr as) \<noteq> [] \<and> hd (concat (map serialize_attr as)) = CHR '' ''
    \<and> last (concat (map serialize_attr as)) = CHR 0x22)"
proof (induction as)
  case Nil
  show ?case by simp
next
  case (Cons a as)
  have "serialize_attr a \<noteq> []" "hd (serialize_attr a) = CHR '' ''" "last (serialize_attr a) = CHR 0x22"
    by (simp_all add: serialize_attr_def)
  with Cons show ?case by (auto simp: hd_append last_append simp del: concat_eq_Nil_conv)
qed

lemma not_name_char: "\<not> is_name_char CHR '' ''" "\<not> is_name_char CHR ''/''"
  by (simp_all add: is_name_char_def)

lemma span_name:
  assumes "\<forall>c \<in> set n. is_name_char c" and "r = [] \<or> \<not> is_name_char (hd r)"
  shows "takeWhile is_name_char (n @ r) = n" and "dropWhile is_name_char (n @ r) = r"
proof -
  show "takeWhile is_name_char (n @ r) = n"
  proof (cases r)
    case Nil
    with assms(1) show ?thesis by simp
  next
    case (Cons y ys)
    with assms show ?thesis using span_until [of n is_name_char y ys] by simp
  qed
  show "dropWhile is_name_char (n @ r) = r"
  proof (cases r)
    case Nil
    with assms(1) show ?thesis by simp
  next
    case (Cons y ys)
    with assms show ?thesis using span_until [of n is_name_char y ys] by simp
  qed
qed

lemma parse_tag_element:
  assumes "b \<noteq> []" and "hd b \<noteq> CHR ''/''"
  shows "parse_tag b =
    (if takeWhile is_name_char b = [] then None
     else if dropWhile is_name_char b \<noteq> [] \<and> last (dropWhile is_name_char b) = CHR ''/''
       then map_option (Empty (takeWhile is_name_char b)) (parse_attrs (butlast (dropWhile is_name_char b)))
     else map_option (Open (takeWhile is_name_char b)) (parse_attrs (dropWhile is_name_char b)))"
  using assms by (cases b) (simp_all add: parse_tag_def Let_def)

lemma parse_tag_body_of:
  assumes "valid_token t"
  shows "parse_tag (body_of t) = Some t"
proof (cases t)
  case (Close n)
  with assms have n: "n \<noteq> []" "\<forall>c \<in> set n. is_name_char c" by (simp_all add: valid_name_def)
  then have span: "takeWhile is_name_char n = n" "dropWhile is_name_char n = []" by simp_all
  from n(1) show ?thesis by (simp add: Close parse_tag_def span)
next
  case (Open n as)
  let ?A = "concat (map serialize_attr as)"
  from assms Open have n: "n \<noteq> []" "\<forall>c \<in> set n. is_name_char c"
    and as: "\<forall>a \<in> set as. valid_attribute a" by (simp_all add: valid_name_def)
  from n obtain c n' where cn: "n = c # n'" "c \<noteq> CHR ''/''"
    by (cases n) (auto simp: name_char_facts)
  have "?A = [] \<or> \<not> is_name_char (hd ?A)"
    using attrs_text_cases [of as] by (auto simp: not_name_char simp del: concat_eq_Nil_conv)
  with n(2) have span: "takeWhile is_name_char (n @ ?A) = n" "dropWhile is_name_char (n @ ?A) = ?A"
    by (rule span_name)+
  have open_tag: "(?A \<noteq> [] \<and> last ?A = CHR ''/'') = False"
    using attrs_text_cases [of as] by (auto simp del: concat_eq_Nil_conv)
  have b: "body_of t = n @ ?A" using Open by simp
  have "n @ ?A \<noteq> []" "hd (n @ ?A) \<noteq> CHR ''/''" using cn by simp_all
  note tag = parse_tag_element [OF this]
  show ?thesis
    unfolding b tag span open_tag
    by (simp add: n(1) parse_attrs_serialize as Open)
next
  case (Empty n as)
  let ?A = "concat (map serialize_attr as)"
  from assms Empty have n: "n \<noteq> []" "\<forall>c \<in> set n. is_name_char c"
    and as: "\<forall>a \<in> set as. valid_attribute a" by (simp_all add: valid_name_def)
  from n obtain c n' where cn: "n = c # n'" "c \<noteq> CHR ''/''"
    by (cases n) (auto simp: name_char_facts)
  have "?A @ ''/'' = [] \<or> \<not> is_name_char (hd (?A @ ''/''))"
    using attrs_text_cases [of as]
    by (auto simp: not_name_char hd_append simp del: concat_eq_Nil_conv)
  with n(2) have span: "takeWhile is_name_char (n @ ?A @ ''/'') = n"
    "dropWhile is_name_char (n @ ?A @ ''/'') = ?A @ ''/''"
    by (rule span_name)+
  have b: "body_of t = n @ ?A @ ''/''" using Empty by simp
  have "n @ ?A @ ''/'' \<noteq> []" "hd (n @ ?A @ ''/'') \<noteq> CHR ''/''" using cn by simp_all
  note tag = parse_tag_element [OF this]
  show ?thesis
    unfolding b tag span
    by (simp add: n(1) parse_attrs_serialize as Empty)
qed

lemma tags_plain:
  "\<forall>c \<in> set x. c \<noteq> CHR ''<'' \<and> c \<noteq> CHR ''>'' \<and> c \<noteq> CHR 0x22 \<Longrightarrow>
     tags (InTag b) (x @ rest) = tags (InTag (b @ x)) rest"
  by (induction x arbitrary: b) simp_all

lemma tags_value:
  "CHR 0x22 \<notin> set v \<Longrightarrow>
     tags (InValue b) (v @ CHR 0x22 # rest) = tags (InTag (b @ v @ [CHR 0x22])) rest"
  by (induction v arbitrary: b) auto

lemma tags_name:
  assumes "valid_name n"
  shows "tags (InTag b) (n @ rest) = tags (InTag (b @ n)) rest"
proof (rule tags_plain)
  show "\<forall>c \<in> set n. c \<noteq> CHR ''<'' \<and> c \<noteq> CHR ''>'' \<and> c \<noteq> CHR 0x22"
    using assms by (simp add: valid_name_def name_char_facts)
qed

lemma tags_attr:
  assumes "valid_attribute a"
  shows "tags (InTag b) (serialize_attr a @ rest) = tags (InTag (b @ serialize_attr a)) rest"
proof -
  from assms have k: "valid_name (fst a)" and v: "CHR 0x22 \<notin> set (snd a)"
    by (simp_all add: valid_attribute_def)
  have "tags (InTag b) (serialize_attr a @ rest) =
        tags (InTag (b @ '' '')) (fst a @ CHR ''='' # CHR 0x22 # snd a @ CHR 0x22 # rest)"
    by (simp add: serialize_attr_def)
  also have "\<dots> = tags (InTag (b @ '' '' @ fst a)) (CHR ''='' # CHR 0x22 # snd a @ CHR 0x22 # rest)"
    using tags_name [OF k] by simp
  also have "\<dots> = tags (InValue (b @ '' '' @ fst a @ ''='' @ [CHR 0x22])) (snd a @ CHR 0x22 # rest)"
    by simp
  also have "\<dots> = tags (InTag (b @ serialize_attr a)) rest"
    using tags_value [OF v] by (simp add: serialize_attr_def)
  finally show ?thesis .
qed

lemma tags_attrs:
  "\<forall>a \<in> set as. valid_attribute a \<Longrightarrow>
     tags (InTag b) (concat (map serialize_attr as) @ rest) =
     tags (InTag (b @ concat (map serialize_attr as))) rest"
  by (induction as arbitrary: b) (simp_all add: tags_attr)

lemma tags_body_of:
  assumes "valid_token t"
  shows "tags (InTag []) (body_of t @ rest) = tags (InTag (body_of t)) rest"
proof (cases t)
  case (Open n as)
  with assms show ?thesis using tags_name [of n "[]"] tags_attrs [of as n] by simp
next
  case (Close n)
  with assms show ?thesis using tags_name [of n "''/''"] by simp
next
  case (Empty n as)
  with assms show ?thesis using tags_name [of n "[]"] tags_attrs [of as n] by simp
qed

lemma tags_tag_text:
  assumes "valid_token t"
  shows "tags Between (tag_text t @ rest) = map_option ((#) (body_of t)) (tags Between rest)"
  using tags_body_of [OF assms, of "CHR ''>'' # rest"] by (simp add: tag_text_def)

lemma tags_tokens:
  "\<forall>t \<in> set ts. valid_token t \<Longrightarrow>
     tags Between (concat (map tag_text ts)) = Some (map body_of ts)"
  by (induction ts) (simp_all add: tags_tag_text)

lemma tokens_body_of:
  "\<forall>t \<in> set ts. valid_token t \<Longrightarrow> tokens (map body_of ts) = Some ts"
  by (induction ts) (simp_all add: parse_tag_body_of)

lemma tag_text_simps:
  "tag_text (Open n as) = ''<'' @ n @ concat (map serialize_attr as) @ ''>''"
  "tag_text (Empty n as) = ''<'' @ n @ concat (map serialize_attr as) @ ''/>''"
  "tag_text (Close n) = ''</'' @ n @ ''>''"
  by (simp_all add: tag_text_def)

lemma serialize_toks: "serialize e = concat (map tag_text (toks e))"
proof (induction e)
  case (Element n as kids)
  have "concat (map serialize kids) = concat (map tag_text (concat (map toks kids)))"
    using Element by (induction kids) auto
  then show ?case by (simp add: tag_text_simps)
qed

lemma valid_toks: "valid_element e \<Longrightarrow> \<forall>t \<in> set (toks e). valid_token t"
  by (induction e) auto

lemma build_children:
  assumes "\<And>k ts pn pas acc st. k \<in> set kids \<Longrightarrow>
      build (toks k @ ts) ((pn, pas, acc) # st) = build ts ((pn, pas, acc @ [k]) # st)"
  shows "build (concat (map toks kids) @ ts) ((pn, pas, acc) # st) =
         build ts ((pn, pas, acc @ kids) # st)"
  using assms by (induction kids arbitrary: acc) simp_all

lemma build_toks:
  "build (toks e @ ts) ((pn, pas, acc) # st) = build ts ((pn, pas, acc @ [e]) # st)"
proof (induction e arbitrary: ts pn pas acc st)
  case (Element n as kids)
  show ?case
  proof (cases "kids = []")
    case True
    then show ?thesis by simp
  next
    case False
    have "build (toks (Element n as kids) @ ts) ((pn, pas, acc) # st) =
          build (concat (map toks kids) @ Close n # ts) ((n, as, []) # (pn, pas, acc) # st)"
      using False by simp
    also have "\<dots> = build (Close n # ts) ((n, as, [] @ kids) # (pn, pas, acc) # st)"
      by (rule build_children) (rule Element)
    also have "\<dots> = build ts ((pn, pas, acc @ [Element n as kids]) # st)"
      by simp
    finally show ?thesis .
  qed
qed

lemma build_root: "build (toks e) [] = Some e"
proof (cases e)
  case (Element n as kids)
  show ?thesis
  proof (cases "kids = []")
    case True
    with Element show ?thesis by simp
  next
    case False
    have "build (toks e) [] = build (concat (map toks kids) @ [Close n]) [(n, as, [])]"
      using False Element by simp
    also have "\<dots> = build [Close n] [(n, as, [] @ kids)]"
      by (rule build_children) (rule build_toks)
    also have "\<dots> = Some e" using Element by simp
    finally show ?thesis .
  qed
qed

lemma parse_serialize: "valid_element e \<Longrightarrow> parse (serialize e) = Some e"
  by (simp add: parse_def serialize_toks tags_tokens tokens_body_of valid_toks build_root)

section \<open>Parsed and sanitized trees are valid\<close>

lemma parse_attrs_valid:
  "parse_attrs s = Some as \<Longrightarrow> \<forall>a \<in> set as. valid_attribute a"
proof (induction s arbitrary: as rule: parse_attrs.induct)
  case (1 s)
  show ?case
  proof (cases "dropWhile is_space s = []")
    case True
    with "1.prems" show ?thesis by (subst (asm) parse_attrs.simps) simp
  next
    case False
    let ?s1 = "dropWhile is_space s"
    let ?k = "takeWhile is_name_char ?s1"
    from "1.prems" False obtain s2 s3 s4 q' tl where
      sp: "takeWhile is_space s \<noteq> []" and k: "?k \<noteq> []"
      and s2: "dropWhile is_space (dropWhile is_name_char ?s1) = CHR ''='' # s2"
      and s3: "dropWhile is_space s2 = CHR 0x22 # s3"
      and s4: "dropWhile (\<lambda>c. c \<noteq> CHR 0x22) s3 = q' # s4"
      and tl: "parse_attrs s4 = Some tl"
      and as: "as = (?k, takeWhile (\<lambda>c. c \<noteq> CHR 0x22) s3) # tl"
      by (subst (asm) parse_attrs.simps)
         (auto simp: Let_def split: if_splits list.splits)
    have "\<forall>a \<in> set tl. valid_attribute a"
      using "1.IH" [OF False sp refl refl k s2 _ s3 _ s4 tl] by simp
    moreover have "valid_attribute (?k, takeWhile (\<lambda>c. c \<noteq> CHR 0x22) s3)"
      using k by (auto simp: valid_attribute_def valid_name_def dest: set_takeWhileD)
    ultimately show ?thesis using as by simp
  qed
qed

lemma takeWhile_valid_name:
  "takeWhile is_name_char xs \<noteq> [] \<Longrightarrow> valid_name (takeWhile is_name_char xs)"
  by (auto simp: valid_name_def dest: set_takeWhileD)

lemma parse_tag_valid:
  assumes "parse_tag b = Some t"
  shows "valid_token t"
proof (cases b)
  case Nil
  with assms show ?thesis by (simp add: parse_tag_def)
next
  case (Cons c cs)
  show ?thesis
  proof (cases "c = CHR ''/''")
    case True
    with assms Cons have "takeWhile is_name_char cs \<noteq> []" "t = Close (takeWhile is_name_char cs)"
      by (auto simp: parse_tag_def split: if_splits)
    then show ?thesis by (simp add: takeWhile_valid_name)
  next
    case False
    let ?n = "takeWhile is_name_char b" and ?r = "dropWhile is_name_char b"
    from Cons False have "b \<noteq> []" "hd b \<noteq> CHR ''/''" by simp_all
    note tag = parse_tag_element [OF this]
    from assms have n: "?n \<noteq> []" unfolding tag by (auto split: if_splits)
    then have name: "valid_name ?n" by (rule takeWhile_valid_name)
    from assms n consider
      (empty_tag) as where "parse_attrs (butlast ?r) = Some as" "t = Empty ?n as"
      | (opening_tag) as where "parse_attrs ?r = Some as" "t = Open ?n as"
      unfolding tag by (auto split: if_splits)
    then show ?thesis
    proof cases
      case empty_tag
      with name show ?thesis by (auto dest: parse_attrs_valid)
    next
      case opening_tag
      with name show ?thesis by (auto dest: parse_attrs_valid)
    qed
  qed
qed

lemma tokens_valid: "tokens bs = Some ts \<Longrightarrow> \<forall>t \<in> set ts. valid_token t"
  by (induction bs arbitrary: ts) (auto split: option.splits dest: parse_tag_valid)

lemma build_valid:
  "build ts st = Some e \<Longrightarrow> \<forall>t \<in> set ts. valid_token t \<Longrightarrow> \<forall>f \<in> set st. valid_frame f \<Longrightarrow>
     valid_element e"
  by (induction ts st rule: build.induct) (auto simp: valid_frame_def split: if_splits)

lemma parse_valid:
  assumes "parse s = Some e"
  shows "valid_element e"
proof -
  from assms obtain bs ts where "tokens bs = Some ts" and b: "build ts [] = Some e"
    by (auto simp: parse_def split: option.splits)
  then have "\<forall>t \<in> set ts. valid_token t" by (simp add: tokens_valid)
  with b show ?thesis by (rule build_valid) simp
qed

lemma sanitize_declaration_no_quote:
  "0 < w \<Longrightarrow> CHR 0x22 \<notin> set d \<Longrightarrow> CHR 0x22 \<notin> set (sanitize_declaration w d)"
  using show_int_in [of w] by (auto simp: sanitize_declaration_def)

lemma sanitize_style_no_quote:
  assumes "0 < w" and "CHR 0x22 \<notin> set v"
  shows "CHR 0x22 \<notin> set (sanitize_style w v)"
proof
  assume "CHR 0x22 \<in> set (sanitize_style w v)"
  then obtain d where d: "d \<in> set (split_on CHR '';'' v)"
    and q: "CHR 0x22 \<in> set (sanitize_declaration w d)"
    using set_join [of "CHR '';''" "map (sanitize_declaration w) (split_on CHR '';'' v)"]
    by (auto simp: sanitize_style_def)
  from d assms(2) have "CHR 0x22 \<notin> set d" using split_on_pieces [of d "CHR '';''" v] by auto
  with assms(1) q show False by (simp add: sanitize_declaration_no_quote)
qed

lemma valid_sanitize_attribute:
  assumes "0 < w" and "valid_attribute a"
  shows "valid_attribute (sanitize_attribute w a)"
proof -
  have "CHR 0x22 \<notin> set (show_int w)" using show_int_in [OF assms(1)] by auto
  moreover have "CHR 0x22 \<notin> set (sanitize_style w (snd a))"
    using assms by (simp add: sanitize_style_no_quote valid_attribute_def)
  ultimately have "CHR 0x22 \<notin> set (snd (sanitize_attribute w a))"
    using assms(2) by (simp add: sanitize_attribute_def valid_attribute_def)
  with assms(2) show ?thesis
    by (simp add: valid_attribute_def fst_sanitize_attribute)
qed

lemma valid_sanitize_element:
  "0 < w \<Longrightarrow> valid_element e \<Longrightarrow> valid_element (sanitize_element w e)"
  by (induction e) (auto simp: valid_sanitize_attribute)

lemma sanitizeToOutline_Inr:
  assumes "sanitizeToOutline rawMarkup strokeWidth = Inr out"
  obtains root where "0 < strokeWidth" and "parse rawMarkup = Some root"
    and "out = serialize (sanitize_element strokeWidth root)"
    and "parse out = Some (sanitize_element strokeWidth root)"
proof -
  from assms have w: "0 < strokeWidth"
    by (simp add: sanitizeToOutline_def split: if_splits)
  with assms obtain root where root: "parse rawMarkup = Some root"
    and out: "out = serialize (sanitize_element strokeWidth root)"
    by (auto simp: sanitizeToOutline_def split: option.splits)
  from root have "valid_element root" by (rule parse_valid)
  with w have "valid_element (sanitize_element strokeWidth root)" by (rule valid_sanitize_element)
  then have "parse out = Some (sanitize_element strokeWidth root)"
    unfolding out by (rule parse_serialize)
  with w root out show ?thesis by (rule that)
qed

section \<open>The sanitizer on markup\<close>

text \<open>
  C1. When \<^verbatim>\<open>sanitizeToOutline\<close> accepts its input, the output is markup that parses, and in
  it no element, the root or any descendant, gives \<^verbatim>\<open>fill\<close> a value other than \<^verbatim>\<open>none\<close>,
  neither by a \<^verbatim>\<open>fill\<close> attribute nor by a \<^verbatim>\<open>fill\<close> declaration in a \<^verbatim>\<open>style\<close> attribute.
\<close>

theorem sanitizeToOutline_fill_none:
  assumes "sanitizeToOutline rawMarkup strokeWidth = Inr out"
  shows "\<exists>root. parse out = Some root \<and>
           (\<forall>e \<in> set (elements root). \<forall>v \<in> set (presentation_values ''fill'' e). v = ''none'')"
proof -
  from assms obtain root where w: "0 < strokeWidth"
    and out: "parse out = Some (sanitize_element strokeWidth root)"
    by (rule sanitizeToOutline_Inr)
  from w have "\<forall>e \<in> set (elements (sanitize_element strokeWidth root)).
                 \<forall>v \<in> set (presentation_values ''fill'' e). v = ''none''"
    by (blast dest: fill_sanitize_element)
  with out show ?thesis by blast
qed

theorem sanitizeToOutline_fill_none_witness:
  "sanitizeToOutline
     ''<svg fill=\"red\"><g style=\"fill:#00f;stroke:red\"><path fill=\"url(#g)\" d=\"M0 0\"/></g></svg>'' 2
   = Inr ''<svg fill=\"none\"><g style=\"fill:none;stroke:red\"><path fill=\"none\" d=\"M0 0\"/></g></svg>''
   \<and> (\<exists>root.
        parse ''<svg fill=\"none\"><g style=\"fill:none;stroke:red\"><path fill=\"none\" d=\"M0 0\"/></g></svg>''
          = Some root
        \<and> (\<forall>e \<in> set (elements root). \<forall>v \<in> set (presentation_values ''fill'' e). v = ''none''))"
proof -
  have run: "sanitizeToOutline
     ''<svg fill=\"red\"><g style=\"fill:#00f;stroke:red\"><path fill=\"url(#g)\" d=\"M0 0\"/></g></svg>'' 2
   = Inr ''<svg fill=\"none\"><g style=\"fill:none;stroke:red\"><path fill=\"none\" d=\"M0 0\"/></g></svg>''"
    by code_simp
  from sanitizeToOutline_fill_none [OF run] run show ?thesis by (rule conjI [rotated])
qed

text \<open>
  C4. When \<^verbatim>\<open>sanitizeToOutline\<close> accepts its input, input and output parse to trees with the
  same skeleton: the same elements with the same names in the same nesting and order, and
  every attribute outside the presentation attributes, the path data \<^verbatim>\<open>d\<close> among them, with
  its value unchanged. The example of the specification is the witness: the \<^verbatim>\<open>path\<close> keeps
  \<^verbatim>\<open>d="M0 0L10 10"\<close>, its \<^verbatim>\<open>fill\<close> is no longer \<^verbatim>\<open>#000\<close>, and its \<^verbatim>\<open>stroke-width\<close> is \<^verbatim>\<open>15\<close>.
\<close>

theorem sanitizeToOutline_structure:
  assumes "sanitizeToOutline rawMarkup strokeWidth = Inr out"
  shows "\<exists>root root'. parse rawMarkup = Some root \<and> parse out = Some root'
           \<and> skeleton root' = skeleton root"
proof -
  from assms obtain root where "parse rawMarkup = Some root"
    and "parse out = Some (sanitize_element strokeWidth root)"
    by (rule sanitizeToOutline_Inr)
  then show ?thesis by (simp add: skeleton_sanitize_element)
qed

theorem sanitizeToOutline_structure_witness:
  "sanitizeToOutline ''<svg><path fill=\"#000\" stroke-width=\"2\" d=\"M0 0L10 10\"/></svg>'' 15
   = Inr ''<svg><path fill=\"none\" stroke-width=\"15\" d=\"M0 0L10 10\"/></svg>''
   \<and> parse ''<svg><path fill=\"none\" stroke-width=\"15\" d=\"M0 0L10 10\"/></svg>''
     = Some (Element ''svg'' []
         [Element ''path'' [(''fill'', ''none''), (''stroke-width'', ''15''), (''d'', ''M0 0L10 10'')] []])
   \<and> (\<exists>root root'.
        parse ''<svg><path fill=\"#000\" stroke-width=\"2\" d=\"M0 0L10 10\"/></svg>'' = Some root
        \<and> parse ''<svg><path fill=\"none\" stroke-width=\"15\" d=\"M0 0L10 10\"/></svg>'' = Some root'
        \<and> skeleton root' = skeleton root)"
proof -
  have run: "sanitizeToOutline ''<svg><path fill=\"#000\" stroke-width=\"2\" d=\"M0 0L10 10\"/></svg>'' 15
      = Inr ''<svg><path fill=\"none\" stroke-width=\"15\" d=\"M0 0L10 10\"/></svg>''"
    by code_simp
  have out: "parse ''<svg><path fill=\"none\" stroke-width=\"15\" d=\"M0 0L10 10\"/></svg>''
     = Some (Element ''svg'' []
         [Element ''path'' [(''fill'', ''none''), (''stroke-width'', ''15''), (''d'', ''M0 0L10 10'')] []])"
    by code_simp
  from run out sanitizeToOutline_structure [OF run] show ?thesis by blast
qed

end
